theory Spec2Isabelle
  imports Main "HOL-Library.Word"
begin

section \<open>Content supply: data model\<close>

text \<open>
  Identities are strings in the source: \<open>peer.ID\<close> is a Go string type and a
  \<open>cid.Cid\<close> wraps one binary string.
\<close>

type_synonym peer_id = string
type_synonym cid = string

text \<open>
  Every error value a modelled function can return. \<open>ErrExternal\<close> stands for an error
  handed back by a collaborator outside this package (host, datastore, transport).
\<close>

datatype error =
    ErrNoPeers
  | ErrUnknownCID
  | ErrNotAuthorized
  | ErrNoPushAccepted
  | ErrStoreIDNotFound
  | ErrRecordNotFound
  | ErrSyntax
  | ErrRange
  | ErrExternal string

text \<open>\<open>Request\<close>: the content to pull.\<close>

record Request =
  PayloadCID :: cid
  Size :: "64 word"

text \<open>\<open>PRecord\<close>: a provider and the content it stores.\<close>

record PRecord =
  Provider :: peer_id
  RecPayloadCID :: cid

section \<open>Validator\<close>

text \<open>
  \<open>Validator.auth\<close> is a Go map from CID to a pointer to a peer set. The mutex only
  serialises the calls, so each call is a function on the table.
\<close>

type_synonym validator = "cid \<rightharpoonup> peer_id set"

definition NewValidator :: validator where
  "NewValidator = Map.empty"

definition Authorize :: "validator \<Rightarrow> cid \<Rightarrow> peer_id \<Rightarrow> validator" where
  "Authorize v k p =
     (case v k of
        Some pset \<Rightarrow> v(k \<mapsto> insert p pset)
      | None \<Rightarrow> v(k \<mapsto> insert p {}))"

definition ValidatePush :: "validator \<Rightarrow> peer_id \<Rightarrow> cid \<Rightarrow> error + unit" where
  "ValidatePush v sender baseCid = Inl ErrNoPushAccepted"

definition ValidatePull :: "validator \<Rightarrow> peer_id \<Rightarrow> cid \<Rightarrow> error + unit" where
  "ValidatePull v receiver baseCid =
     (case v baseCid of
        None \<Rightarrow> Inl ErrUnknownCID
      | Some pset \<Rightarrow> if receiver \<notin> pset then Inl ErrNotAuthorized else Inr ())"

section \<open>Regions and protocol identifiers\<close>

record Region =
  Name :: string
  Code :: "64 word"
  PPB :: int
  StorageMiners :: "string list"

definition MaxReceiverCount :: nat where
  "MaxReceiverCount = 7"

definition RequestProtocol :: string where
  "RequestProtocol = ''/myel/supply/dispatch/1.0''"

text \<open>\<open>fmt.Sprintf("%s/%s", proto, r.Name)\<close> for every region, in order.\<close>

fun protoRegions :: "string \<Rightarrow> Region list \<Rightarrow> string list" where
  "protoRegions proto [] = []"
| "protoRegions proto (r # rs) = (proto @ ''/'' @ Name r) # protoRegions proto rs"

section \<open>Host, network and the calls a dispatch makes\<close>

text \<open>
  The peer host is a collaborator outside the package. The model takes what the code
  asks of it: the local identity, the remote peer of every element of
  \<open>Network().Conns()\<close> in iteration order, the peer store's answer to
  \<open>SupportsProtocols\<close>, and the outcome of opening a stream and of writing a request.
  The last two may differ from call to call, so they also take the position of the call
  in the fan-out loop.
\<close>

record Host =
  ID :: peer_id
  Conns :: "peer_id list"
  SupportsProtocols :: "peer_id \<Rightarrow> string list \<Rightarrow> error + string list"
  NewStream :: "nat \<Rightarrow> peer_id \<Rightarrow> string list \<Rightarrow> error option"
  WriteCborRPC :: "nat \<Rightarrow> peer_id \<Rightarrow> Request \<Rightarrow> error option"

record Network =
  host :: Host
  protocols :: "string list"

definition NewNetwork :: "Host \<Rightarrow> Region list \<Rightarrow> Network" where
  "NewNetwork hst rgns = \<lparr>host = hst, protocols = protoRegions RequestProtocol rgns\<rparr>"

text \<open>
  The calls on collaborators that the claims count, in the order they are made. A
  stream call carries its outcome (\<open>None\<close> is Go's nil error).
\<close>

datatype effect =
    CallSubscribeToEvents cid
  | CallAuthorize cid peer_id
  | CallNewRequestStream peer_id "error option"
  | CallWriteRequest peer_id Request "error option"
  | CallClose peer_id

text \<open>Readers of the call list: who a stream was opened to, and who was authorized.\<close>

fun streamPeer :: "effect \<Rightarrow> peer_id option" where
  "streamPeer (CallNewRequestStream p res) = Some p"
| "streamPeer e = None"

fun authorized :: "effect \<Rightarrow> (cid \<times> peer_id) option" where
  "authorized (CallAuthorize k p) = Some (k, p)"
| "authorized e = None"

fun writeAttempt :: "effect \<Rightarrow> peer_id option" where
  "writeAttempt (CallWriteRequest p r res) = Some p"
| "writeAttempt e = None"

fun written :: "effect \<Rightarrow> peer_id option" where
  "written (CallWriteRequest p r None) = Some p"
| "written e = None"

record Response =
  Count :: int

section \<open>Content index\<close>

record ContentRecord =
  Labels :: "string \<rightharpoonup> string"

text \<open>
  Modelled from the spec: the label keys \<open>KStoreID\<close> and \<open>KSize\<close> are declared in a
  file of the package that is not among the sources; the spec names the two recognised
  labels \<open>storeId\<close> and \<open>size\<close>.
\<close>

definition KStoreID :: string where
  "KStoreID = ''storeId''"

definition KSize :: string where
  "KSize = ''size''"

text \<open>
  Modelled from the spec: the type \<open>Store\<close> and its methods \<open>PutRecord\<close>,
  \<open>GetRecord\<close> and \<open>RemoveRecord\<close> are not among the sources. The spec describes a
  mapping from payload CID to content record with \<open>put\<close> an overwrite, \<open>get\<close>
  returning the record or not-found, and \<open>remove\<close> succeeding whether or not the
  record existed. A failing write of the backing datastore is the argument \<open>fails\<close> of
  \<open>PutRecord\<close> and leaves the mapping as it was.
\<close>

type_synonym Store = "cid \<rightharpoonup> ContentRecord"

definition PutRecord :: "error option \<Rightarrow> Store \<Rightarrow> cid \<Rightarrow> ContentRecord \<Rightarrow> error option \<times> Store" where
  "PutRecord fails st k rec =
     (case fails of Some err \<Rightarrow> (Some err, st) | None \<Rightarrow> (None, st(k \<mapsto> rec)))"

definition GetRecord :: "Store \<Rightarrow> cid \<Rightarrow> error + ContentRecord" where
  "GetRecord st k = (case st k of None \<Rightarrow> Inl ErrRecordNotFound | Some rec \<Rightarrow> Inr rec)"

definition RemoveRecord :: "Store \<Rightarrow> cid \<Rightarrow> error option \<times> Store" where
  "RemoveRecord st k = (None, st(k := None))"

section \<open>Supply: receiver selection and dispatch\<close>

record Supply =
  h :: Host
  net :: Network
  store :: Store
  validation :: validator
  regions :: "Region list"

definition New :: "Host \<Rightarrow> Store \<Rightarrow> Region list \<Rightarrow> Supply" where
  "New hst ds rgns =
     \<lparr>h = hst, net = NewNetwork hst rgns, store = ds,
      validation = NewValidator, regions = rgns\<rparr>"

text \<open>
  The body of the loop over the connections in \<open>selectProviders\<close>; \<open>peers\<close> is the
  slice built so far.
\<close>

fun selectLoop :: "Supply \<Rightarrow> peer_id list \<Rightarrow> peer_id list \<Rightarrow> peer_id list" where
  "selectLoop s [] peers = peers"
| "selectLoop s (pid # rest) peers =
     (if pid \<noteq> ID (h s) then
        (case SupportsProtocols (h s) pid (protoRegions RequestProtocol (regions s)) of
           Inl err \<Rightarrow> selectLoop s rest peers
         | Inr supported \<Rightarrow>
             if length supported = 0 then selectLoop s rest peers
             else selectLoop s rest (peers @ [pid]))
      else selectLoop s rest peers)"

definition selectProviders :: "Supply \<Rightarrow> error + peer_id list" where
  "selectProviders s =
     (let peers = selectLoop s (Conns (h s)) [] in
      if length peers = 0 then Inl ErrNoPeers
      else if length peers > MaxReceiverCount then Inr (take MaxReceiverCount peers)
      else Inr peers)"

text \<open>
  \<open>sendAllRequests\<close>: for each peer open a stream, and if that worked write the request
  and close the stream. Either error only moves on to the next peer. \<open>n\<close> is the
  position of the peer in the loop.
\<close>

fun sendAllRequests :: "Network \<Rightarrow> Request \<Rightarrow> nat \<Rightarrow> peer_id list \<Rightarrow> effect list" where
  "sendAllRequests nw r n [] = []"
| "sendAllRequests nw r n (p # ps) =
     (case NewStream (host nw) n p (protocols nw) of
        Some err \<Rightarrow> CallNewRequestStream p (Some err) # sendAllRequests nw r (Suc n) ps
      | None \<Rightarrow>
          CallNewRequestStream p None
          # CallWriteRequest p r (WriteCborRPC (host nw) n p r)
          # CallClose p
          # sendAllRequests nw r (Suc n) ps)"

text \<open>The loop \<open>for _, p := range providers { s.validation.Authorize(r.PayloadCID, p) }\<close>.\<close>

fun authorizeLoop :: "validator \<Rightarrow> cid \<Rightarrow> peer_id list \<Rightarrow> validator" where
  "authorizeLoop v k [] = v"
| "authorizeLoop v k (p # ps) = authorizeLoop (Authorize v k p) k ps"

text \<open>
  \<open>Dispatch\<close> returns the response and the error together, as the Go function does, with
  the supply after the call and the calls made on the collaborators.
\<close>

definition Dispatch :: "Supply \<Rightarrow> Request \<Rightarrow> (Response \<times> error option) \<times> Supply \<times> effect list" where
  "Dispatch s r =
     (let res = \<lparr>Count = 0\<rparr>;
          sub = [CallSubscribeToEvents (PayloadCID r)]
      in case selectProviders s of
           Inl err \<Rightarrow> ((res, Some err), s, sub)
         | Inr providers \<Rightarrow>
             ((res\<lparr>Count := int (length providers)\<rparr>, None),
              s\<lparr>validation := authorizeLoop (validation s) (PayloadCID r) providers\<rparr>,
              sub @ map (CallAuthorize (PayloadCID r)) providers
                  @ sendAllRequests (net s) r 0 providers))"

section \<open>Transport events and the two subscriptions\<close>

text \<open>
  \<open>datatransfer.EventCode\<close> and \<open>datatransfer.Status\<close> are enumerations of the
  transport library. The code compares against one value of each; every other value is
  kept apart by its number.
\<close>

datatype EventCode = Error | OtherEventCode nat

datatype Status = Completed | OtherStatus nat

record Event =
  EvCode :: EventCode

record ChannelState =
  ChStatus :: Status
  BaseCID :: cid
  Recipient :: peer_id

text \<open>
  The function \<open>Dispatch\<close> subscribes. Its result is the list of records it sends on
  \<open>recordChan\<close> for one event.
\<close>

definition DispatchSubscriber :: "Request \<Rightarrow> Event \<Rightarrow> ChannelState \<Rightarrow> PRecord list" where
  "DispatchSubscriber r event chState =
     (if ChStatus chState = Completed then
        (let root = BaseCID chState in
         if root \<noteq> PayloadCID r then []
         else (let rec = Recipient chState in
               [\<lparr>Provider = rec, RecPayloadCID = root\<rparr>]))
      else [])"

text \<open>The function \<open>New\<close> subscribes; the error of \<open>RemoveRecord\<close> is dropped.\<close>

definition NewSubscriber :: "Host \<Rightarrow> Event \<Rightarrow> ChannelState \<Rightarrow> Store \<Rightarrow> Store" where
  "NewSubscriber hst event channelState st =
     (if EvCode event = Error \<and> Recipient channelState = ID hst
      then snd (RemoveRecord st (BaseCID channelState))
      else st)"

section \<open>Decimal text of unsigned integers\<close>

text \<open>
  \<open>fmt.Sprintf("%d", n)\<close> for an unsigned \<open>n\<close>: the decimal digits, most significant
  first, each read from the digit table. Every index used is below 10.
\<close>

definition digits :: string where
  "digits = ''0123456789''"

function fmt_d :: "nat \<Rightarrow> string" where
  "fmt_d n =
     (if n < 10 then [digits ! n]
      else fmt_d (n div 10) @ [digits ! (n mod 10)])"
  by pat_completeness auto
termination
  by (relation "measure (\<lambda>n. n)") auto

declare fmt_d.simps [simp del]

definition maxUint64 :: nat where
  "maxUint64 = 2 ^ 64 - 1"

text \<open>
  \<open>strconv.ParseUint(s, 10, 64)\<close>. The accumulator is a \<open>uint64\<close>: products and sums
  are taken modulo \<open>2 ^ 64\<close> as the machine does. A byte that is not a decimal digit is a
  syntax error (a letter is a digit of value 10 or more, refused in base 10; an
  underscore or a sign is refused as well).
\<close>

fun parseUintLoop :: "nat \<Rightarrow> string \<Rightarrow> error + nat" where
  "parseUintLoop n [] = Inr n"
| "parseUintLoop n (c # cs) =
     (if 48 \<le> (of_char c :: nat) \<and> (of_char c :: nat) \<le> 57 then
        (let d = (of_char c :: nat) - 48 in
         if n \<ge> maxUint64 div 10 + 1 then Inl ErrRange
         else
           (let n10 = (n * 10) mod 2 ^ 64;
                n1 = (n10 + d) mod 2 ^ 64
            in if n1 < n10 \<or> n1 > maxUint64 then Inl ErrRange
               else parseUintLoop n1 cs))
      else Inl ErrSyntax)"

definition ParseUint :: "string \<Rightarrow> error + 64 word" where
  "ParseUint s =
     (if s = [] then Inl ErrSyntax
      else case parseUintLoop 0 s of
             Inl err \<Rightarrow> Inl err
           | Inr n \<Rightarrow> Inr (word_of_nat n))"

section \<open>Inbound request handler\<close>

datatype RecursionLimit = RecursionLimitNone | RecursionLimitDepth nat

datatype SelectorSpec =
    ExploreRecursive RecursionLimit SelectorSpec
  | ExploreAll SelectorSpec
  | ExploreRecursiveEdge
  | Matcher

definition AllSelector :: SelectorSpec where
  "AllSelector = ExploreRecursive RecursionLimitNone (ExploreAll ExploreRecursiveEdge)"

text \<open>
  The stream as the handler sees it: what \<open>ReadRequest\<close> returns and who the other peer
  is. The handler's collaborators: the identifier \<open>ms.Next()\<close> hands out, and the
  outcomes of the index write and of opening the pull channel.
\<close>

record RequestStreamer =
  ReadRequest :: "error + Request"
  OtherPeer :: peer_id

record handler =
  msNext :: "64 word"
  putFails :: "error option"
  pullFails :: "error option"

datatype hcall =
    HReadRequest
  | HNext
  | HPutRecord cid ContentRecord
  | HOpenPullDataChannel peer_id Request cid SelectorSpec "error option"
  | HClose

definition HandleRequest :: "handler \<Rightarrow> RequestStreamer \<Rightarrow> Store \<Rightarrow> Store \<times> hcall list" where
  "HandleRequest hdl stream st =
     (case ReadRequest stream of
        Inl err \<Rightarrow> (st, [HReadRequest, HClose])
      | Inr req \<Rightarrow>
          (let storeID = msNext hdl;
               rec = \<lparr>Labels = [KStoreID \<mapsto> fmt_d (unat storeID),
                                 KSize \<mapsto> fmt_d (unat (Size req))]\<rparr>;
               (err, st') = PutRecord (putFails hdl) st (PayloadCID req) rec
           in if err \<noteq> None
              then (st', [HReadRequest, HNext, HPutRecord (PayloadCID req) rec, HClose])
              else (st', [HReadRequest, HNext, HPutRecord (PayloadCID req) rec,
                          HOpenPullDataChannel (OtherPeer stream) req (PayloadCID req)
                            AllSelector (pullFails hdl),
                          HClose])))"

section \<open>Store identifier of a content\<close>

definition GetStoreID :: "Supply \<Rightarrow> cid \<Rightarrow> error + 64 word" where
  "GetStoreID s k =
     (case GetRecord (store s) k of
        Inl err \<Rightarrow> Inl err
      | Inr rec \<Rightarrow>
          (case Labels rec KStoreID of
             None \<Rightarrow> Inl ErrStoreIDNotFound
           | Some sid \<Rightarrow>
               (case ParseUint sid of
                  Inl err \<Rightarrow> Inl err
                | Inr storeID \<Rightarrow> Inr storeID)))"

section \<open>Preset regions\<close>

definition asia :: Region where
  "asia = \<lparr>Name = ''Asia'', Code = 1, PPB = 1,
     StorageMiners = [''f0159961'', ''f0242152'', ''f0225676'', ''f0165539'',
                      ''f0216138'', ''f01272'']\<rparr>"

definition africa :: Region where
  "africa = \<lparr>Name = ''Africa'', Code = 2, PPB = 1, StorageMiners = []\<rparr>"

definition southAmerica :: Region where
  "southAmerica = \<lparr>Name = ''SouthAmerica'', Code = 3, PPB = 1, StorageMiners = []\<rparr>"

definition northAmerica :: Region where
  "northAmerica = \<lparr>Name = ''NorthAmerica'', Code = 4, PPB = 1,
     StorageMiners = [''f02301'', ''f03223'', ''f019104'', ''f02401'', ''f02387'',
                      ''f09848'', ''f08399'', ''f010088'', ''f064218'', ''f02540'',
                      ''f015927'', ''f0135078'', ''f019104'', ''f047419'', ''f01278'',
                      ''f010617'', ''f01247'', ''f022142'', ''f019279'']\<rparr>"

definition europe :: Region where
  "europe = \<lparr>Name = ''Europe'', Code = 5, PPB = 1,
     StorageMiners = [''f01240'', ''f01234'', ''f022352'', ''f099608'', ''f02576'',
                      ''f023467'', ''f03624'', ''f062353'', ''f081323'', ''f08403'',
                      ''f010446'', ''f01277'', ''f022163'']\<rparr>"

definition oceania :: Region where
  "oceania = \<lparr>Name = ''Oceania'', Code = 6, PPB = 1, StorageMiners = [''f014365'']\<rparr>"

definition global :: Region where
  "global = \<lparr>Name = ''Global'', Code = 0, PPB = 0,
     StorageMiners =
       StorageMiners northAmerica @ (StorageMiners europe @ StorageMiners oceania)\<rparr>"

text \<open>The preset regions other than \<open>global\<close>, as the table \<open>Regions\<close> lists them.\<close>

definition otherPresets :: "Region list" where
  "otherPresets = [asia, africa, southAmerica, northAmerica, europe, oceania]"

text \<open>
  The first loop of \<open>ListMiners\<close>: the miner strings of the regions, where a region
  named Global replaces what was collected and ends the loop. (The second loop parses
  each string as an address, outside this package.)
\<close>

fun minerStrings :: "Region list \<Rightarrow> string list \<Rightarrow> string list" where
  "minerStrings [] strList = strList"
| "minerStrings (r # rs) strList =
     (if Name r = ''Global'' then StorageMiners r
      else minerStrings rs (strList @ StorageMiners r))"

section \<open>Notions used to state the properties\<close>

text \<open>A validator after a sequence of \<open>Authorize\<close> calls, oldest first.\<close>

fun authorizeCalls :: "validator \<Rightarrow> (cid \<times> peer_id) list \<Rightarrow> validator" where
  "authorizeCalls v [] = v"
| "authorizeCalls v ((k, p) # calls) = authorizeCalls (Authorize v k p) calls"

text \<open>
  A connected peer qualifies as a receiver when it is not the local peer and the peer
  store reports, without error, at least one supported protocol among the node's region
  protocols.
\<close>

definition eligible :: "Supply \<Rightarrow> peer_id \<Rightarrow> bool" where
  "eligible s pid =
     (pid \<noteq> ID (h s) \<and>
      (case SupportsProtocols (h s) pid (protoRegions RequestProtocol (regions s)) of
         Inl err \<Rightarrow> False
       | Inr supported \<Rightarrow> supported \<noteq> []))"

text \<open>
  A string is an unsigned decimal numeral when it is not empty and all its bytes are
  ASCII digits; its value is read most significant digit first.
\<close>

definition isDigit :: "char \<Rightarrow> bool" where
  "isDigit c = (48 \<le> (of_char c :: nat) \<and> (of_char c :: nat) \<le> 57)"

definition decimalStep :: "nat \<Rightarrow> char \<Rightarrow> nat" where
  "decimalStep a c = 10 * a + ((of_char c :: nat) - 48)"

definition decimalValue :: "string \<Rightarrow> nat" where
  "decimalValue s = foldl decimalStep 0 s"

definition isDecimal :: "string \<Rightarrow> bool" where
  "isDecimal s = (s \<noteq> [] \<and> list_all isDigit s)"

text \<open>
  A host for concrete runs: the local peer is \<open>A\<close>, every remote peer supports the
  protocol of the region Global, and the stream opens and the writes fail at the given
  positions of the fan-out.
\<close>

definition testHost :: "peer_id list \<Rightarrow> nat list \<Rightarrow> nat list \<Rightarrow> Host" where
  "testHost cs openFails writeFails =
     \<lparr>ID = ''A'', Conns = cs,
      SupportsProtocols =
        (\<lambda>pid protos. Inr (filter (\<lambda>p. p = ''/myel/supply/dispatch/1.0/Global'') protos)),
      NewStream =
        (\<lambda>n pid protos. if n \<in> set openFails then Some (ErrExternal ''dial'') else None),
      WriteCborRPC =
        (\<lambda>n pid r. if n \<in> set writeFails then Some (ErrExternal ''write'') else None)\<rparr>"

definition tenPeers :: "peer_id list" where
  "tenPeers = [''P0'', ''P1'', ''P2'', ''P3'', ''P4'', ''P5'', ''P6'', ''P7'', ''P8'', ''P9'']"

definition tenPeerSupply :: Supply where
  "tenPeerSupply = New (testHost tenPeers [] []) Map.empty [global]"

text \<open>
  Supplies over that host: without connections; in region Asia only, connected to itself
  and to a peer of region Global; with three peers, the first stream failing to open and
  the second write failing; and with one peer connected three times.
\<close>

definition noConnSupply :: Supply where
  "noConnSupply = New (testHost [] [] []) Map.empty [global]"

definition asiaOnlySupply :: Supply where
  "asiaOnlySupply = New (testHost [''A'', ''B''] [] []) Map.empty [asia]"

definition threePeerSupply :: Supply where
  "threePeerSupply = New (testHost [''B'', ''C'', ''D''] [0] [1]) Map.empty [global]"

definition twiceConnectedSupply :: Supply where
  "twiceConnectedSupply = New (testHost [''B'', ''C'', ''B'', ''B''] [] []) Map.empty [global]"

text \<open>A supply over a given content index, for concrete runs of \<open>GetStoreID\<close>.\<close>

definition supplyWith :: "Store \<Rightarrow> Supply" where
  "supplyWith st = New (testHost [] [] []) st [global]"

text \<open>
  An inbound stream carrying one request from peer \<open>R\<close>, a handler whose index write
  fails, and one whose pull fails.
\<close>

definition requestStream :: RequestStreamer where
  "requestStream = \<lparr>ReadRequest = Inr \<lparr>PayloadCID = ''Q'', Size = 100\<rparr>, OtherPeer = ''R''\<rparr>"

definition failingPutHandler :: handler where
  "failingPutHandler = \<lparr>msNext = 5, putFails = Some (ErrExternal ''datastore''), pullFails = None\<rparr>"

definition failingPullHandler :: handler where
  "failingPullHandler = \<lparr>msNext = 5, putFails = None, pullFails = Some (ErrExternal ''transport'')\<rparr>"

section \<open>Validator: properties\<close>

lemma authorizeCalls_entry:
  "authorizeCalls v calls k =
     (if k \<in> fst ` set calls
      then Some ((case v k of None \<Rightarrow> {} | Some pset \<Rightarrow> pset) \<union> {p. (k, p) \<in> set calls})
      else v k)"
proof (induction v calls rule: authorizeCalls.induct)
  case (1 v)
  show ?case by simp
next
  case (2 v k' p calls)
  show ?case
    unfolding authorizeCalls.simps "2.IH"
    by (auto simp: Authorize_def image_iff split: option.splits)
qed

lemma authorizeCalls_New:
  "authorizeCalls NewValidator calls k =
     (if k \<in> fst ` set calls then Some {p. (k, p) \<in> set calls} else None)"
  by (simp add: authorizeCalls_entry NewValidator_def)

text \<open>
  Claim C2. After \<open>Authorize k p\<close> the pull of \<open>k\<close> by \<open>p\<close> is allowed; a CID with no
  entry gives the unknown-CID error; a receiver outside an existing entry gives the
  not-authorized error; and a pull is allowed exactly when the entry exists and holds
  the receiver. In terms of the calls made since the validator was created: a pull of
  \<open>k\<close> by \<open>q\<close> is allowed exactly when \<open>Authorize k q\<close> was called, it is unknown-CID
  when no peer was authorized for \<open>k\<close>, and not-authorized when some peer was but
  never \<open>q\<close>.
\<close>

theorem ValidatePull_spec:
  "ValidatePull (Authorize v k p) p k = Inr ()
   \<and> (v k = None \<longrightarrow> ValidatePull v q k = Inl ErrUnknownCID)
   \<and> (\<forall>pset. v k = Some pset \<and> q \<notin> pset \<longrightarrow> ValidatePull v q k = Inl ErrNotAuthorized)
   \<and> (ValidatePull v q k = Inr () \<longleftrightarrow> (\<exists>pset. v k = Some pset \<and> q \<in> pset))
   \<and> (ValidatePull (authorizeCalls NewValidator calls) q k = Inr () \<longleftrightarrow> (k, q) \<in> set calls)
   \<and> (k \<notin> fst ` set calls \<longrightarrow>
        ValidatePull (authorizeCalls NewValidator calls) q k = Inl ErrUnknownCID)
   \<and> (k \<in> fst ` set calls \<and> (k, q) \<notin> set calls \<longrightarrow>
        ValidatePull (authorizeCalls NewValidator calls) q k = Inl ErrNotAuthorized)"
proof -
  have 1: "ValidatePull (Authorize v k p) p k = Inr ()"
    by (auto simp: ValidatePull_def Authorize_def split: option.splits)
  have 2: "v k = None \<longrightarrow> ValidatePull v q k = Inl ErrUnknownCID"
    by (simp add: ValidatePull_def)
  have 3: "\<forall>pset. v k = Some pset \<and> q \<notin> pset \<longrightarrow> ValidatePull v q k = Inl ErrNotAuthorized"
    by (simp add: ValidatePull_def)
  have 4: "ValidatePull v q k = Inr () \<longleftrightarrow> (\<exists>pset. v k = Some pset \<and> q \<in> pset)"
    by (auto simp: ValidatePull_def split: option.splits)
  have 5: "ValidatePull (authorizeCalls NewValidator calls) q k = Inr () \<longleftrightarrow> (k, q) \<in> set calls"
    by (force simp: ValidatePull_def authorizeCalls_New image_iff)
  have 6: "k \<notin> fst ` set calls \<longrightarrow>
        ValidatePull (authorizeCalls NewValidator calls) q k = Inl ErrUnknownCID"
    by (simp add: ValidatePull_def authorizeCalls_New)
  have 7: "k \<in> fst ` set calls \<and> (k, q) \<notin> set calls \<longrightarrow>
        ValidatePull (authorizeCalls NewValidator calls) q k = Inl ErrNotAuthorized"
    by (simp add: ValidatePull_def authorizeCalls_New)
  show ?thesis using 1 2 3 4 5 6 7 by blast
qed

theorem ValidatePull_spec_witness:
  "ValidatePull (Authorize NewValidator ''Qm1'' ''peerB'') ''peerB'' ''Qm1'' = Inr ()
   \<and> ValidatePull NewValidator ''peerB'' ''Qm1'' = Inl ErrUnknownCID
   \<and> ValidatePull (Authorize NewValidator ''Qm1'' ''peerB'') ''peerC'' ''Qm1''
       = Inl ErrNotAuthorized
   \<and> ValidatePull (authorizeCalls NewValidator [(''Qm1'', ''peerB''), (''Qm2'', ''peerC'')])
        ''peerC'' ''Qm1'' = Inl ErrNotAuthorized
   \<and> ValidatePull (authorizeCalls NewValidator [(''Qm1'', ''peerB''), (''Qm2'', ''peerC'')])
        ''peerC'' ''Qm3'' = Inl ErrUnknownCID
   \<and> ValidatePull (authorizeCalls NewValidator [(''Qm1'', ''peerB''), (''Qm2'', ''peerC'')])
        ''peerC'' ''Qm2'' = Inr ()"
proof -
  let ?v = "Authorize NewValidator ''Qm1'' ''peerB''"
  let ?calls = "[(''Qm1'', ''peerB''), (''Qm2'', ''peerC'')]"
  have 1: "ValidatePull ?v ''peerB'' ''Qm1'' = Inr ()"
    using ValidatePull_spec [of NewValidator "''Qm1''" "''peerB''" "''peerB''" "[]"] by simp
  have 2: "ValidatePull NewValidator ''peerB'' ''Qm1'' = Inl ErrUnknownCID"
    using ValidatePull_spec [of NewValidator "''Qm1''" "''peerB''" "''peerB''" "[]"]
    by (simp add: NewValidator_def)
  have v: "?v ''Qm1'' = Some {''peerB''}" by (simp add: Authorize_def NewValidator_def)
  have 3: "ValidatePull ?v ''peerC'' ''Qm1'' = Inl ErrNotAuthorized"
    using v ValidatePull_spec [of ?v "''Qm1''" "''peerB''" "''peerC''" "[]"] by simp
  have 4: "ValidatePull (authorizeCalls NewValidator ?calls) ''peerC'' ''Qm1'' = Inl ErrNotAuthorized"
    using ValidatePull_spec [of NewValidator "''Qm1''" "''peerB''" "''peerC''" ?calls] by simp
  have 5: "ValidatePull (authorizeCalls NewValidator ?calls) ''peerC'' ''Qm3'' = Inl ErrUnknownCID"
    using ValidatePull_spec [of NewValidator "''Qm3''" "''peerB''" "''peerC''" ?calls] by simp
  have 6: "ValidatePull (authorizeCalls NewValidator ?calls) ''peerC'' ''Qm2'' = Inr ()"
    using ValidatePull_spec [of NewValidator "''Qm2''" "''peerB''" "''peerC''" ?calls] by simp
  show ?thesis using 1 2 3 4 5 6 by simp
qed

section \<open>Receiver selection and fan-out: lemmas\<close>

lemma selectLoop_filter: "selectLoop s cs peers = peers @ filter (eligible s) cs"
  by (induction cs arbitrary: peers) (auto simp: eligible_def split: sum.splits)

lemma selectProviders_eq:
  "selectProviders s =
     (if filter (eligible s) (Conns (h s)) = [] then Inl ErrNoPeers
      else Inr (take MaxReceiverCount (filter (eligible s) (Conns (h s)))))"
  by (simp add: selectProviders_def selectLoop_filter Let_def)

lemma sendAll_streamPeers:
  "List.map_filter streamPeer (sendAllRequests nw r n ps) = ps"
  by (induction ps arbitrary: n) (auto split: option.splits)

lemma sendAll_authorized:
  "List.map_filter authorized (sendAllRequests nw r n ps) = []"
  by (induction ps arbitrary: n) (auto split: option.splits)

lemma map_filter_append: "List.map_filter f (xs @ ys) = List.map_filter f xs @ List.map_filter f ys"
  by (simp add: List.map_filter_def)

lemma authorize_calls_streamPeers:
  "List.map_filter streamPeer (map (CallAuthorize k) ps) = []"
  by (induction ps) auto

lemma authorize_calls_authorized:
  "List.map_filter authorized (map (CallAuthorize k) ps) = map (Pair k) ps"
  by (induction ps) auto

lemma Dispatch_streamPeers:
  "List.map_filter streamPeer (snd (snd (Dispatch s r))) =
     (case selectProviders s of Inl err \<Rightarrow> [] | Inr ps \<Rightarrow> ps)"
  by (simp add: Dispatch_def Let_def map_filter_append
      sendAll_streamPeers authorize_calls_streamPeers split: sum.split)

lemma Dispatch_authorized:
  "List.map_filter authorized (snd (snd (Dispatch s r))) =
     (case selectProviders s of Inl err \<Rightarrow> [] | Inr ps \<Rightarrow> map (Pair (PayloadCID r)) ps)"
  by (simp add: Dispatch_def Let_def map_filter_append
      sendAll_authorized authorize_calls_authorized split: sum.split)

text \<open>
  The authorization table after \<open>Dispatch\<close> is the table before it with the logged
  \<open>Authorize\<close> calls applied in order, and whoever such a call names may pull.
\<close>

lemma authorizeLoop_calls: "authorizeLoop v k ps = authorizeCalls v (map (Pair k) ps)"
  by (induction ps arbitrary: v) auto

lemma Dispatch_validation:
  "validation (fst (snd (Dispatch s r))) =
     authorizeCalls (validation s) (List.map_filter authorized (snd (snd (Dispatch s r))))"
  by (simp only: Dispatch_authorized)
     (simp add: Dispatch_def Let_def authorizeLoop_calls split: sum.split)

lemma authorizeCalls_allows:
  "(k, p) \<in> set calls \<Longrightarrow> ValidatePull (authorizeCalls v calls) p k = Inr ()"
  by (force simp: ValidatePull_def authorizeCalls_entry image_iff)

section \<open>Parsing decimal store identifiers: lemmas\<close>

lemma foldl_decimalStep_ge: "n \<le> foldl decimalStep n cs"
proof (induction cs arbitrary: n)
  case Nil
  show ?case by simp
next
  case (Cons c cs)
  have "n \<le> decimalStep n c" by (simp add: decimalStep_def)
  also have "\<dots> \<le> foldl decimalStep (decimalStep n c) cs" by (rule Cons.IH)
  finally show ?case by simp
qed

lemma wrap_add:
  fixes a d :: nat
  assumes "a < 2 ^ 64" "d < 10" "2 ^ 64 \<le> a + d"
  shows "(a + d) mod 2 ^ 64 < a"
proof -
  have "(a + d) mod 2 ^ 64 = (a + d - 2 ^ 64) mod 2 ^ 64"
    using assms(3) by (rule le_mod_geq)
  moreover have "a + d - 2 ^ 64 < (2 ^ 64 :: nat)" using assms by simp
  ultimately have "(a + d) mod 2 ^ 64 = a + d - 2 ^ 64" by simp
  moreover have "a + d - 2 ^ 64 < a" using assms by simp
  ultimately show ?thesis by simp
qed

lemma loop_body:
  fixes n d :: nat
  assumes "d < 10"
  shows "(if n \<ge> maxUint64 div 10 + 1 then Inl ErrRange
          else (let n10 = (n * 10) mod 2 ^ 64; n1 = (n10 + d) mod 2 ^ 64
                in if n1 < n10 \<or> n1 > maxUint64 then Inl ErrRange else F n1))
         = (if 10 * n + d \<le> maxUint64 then F (10 * n + d) else Inl ErrRange)"
proof (cases "n \<ge> maxUint64 div 10 + 1")
  case True
  then have "\<not> 10 * n + d \<le> maxUint64" by (simp add: maxUint64_def)
  then show ?thesis using True by simp
next
  case False
  then have lt: "n * 10 < 2 ^ 64" by (simp add: maxUint64_def)
  show ?thesis
  proof (cases "10 * n + d \<le> maxUint64")
    case True
    then have "n * 10 + d < (2 ^ 64 :: nat)" by (simp add: maxUint64_def)
    then have "(n * 10 + d) mod 2 ^ 64 = 10 * n + d" by simp
    then show ?thesis using False True lt by (simp add: Let_def)
  next
    case no: False
    then have "2 ^ 64 \<le> n * 10 + d" by (simp add: maxUint64_def)
    then have "(n * 10 + d) mod 2 ^ 64 < n * 10" by (rule wrap_add [OF lt assms])
    then show ?thesis using False no lt by (simp add: Let_def)
  qed
qed

lemma parseUintLoop_step:
  assumes "isDigit c"
  shows "parseUintLoop n (c # cs) =
           (if decimalStep n c \<le> maxUint64 then parseUintLoop (decimalStep n c) cs
            else Inl ErrRange)"
proof -
  have d: "(of_char c :: nat) - 48 < 10" using assms by (auto simp: isDigit_def)
  show ?thesis
    using assms loop_body [OF d, of n "\<lambda>m. parseUintLoop m cs"]
    by (simp add: isDigit_def decimalStep_def)
qed

lemma parseUintLoop_nondigit: "\<not> isDigit c \<Longrightarrow> parseUintLoop n (c # cs) = Inl ErrSyntax"
  by (auto simp: isDigit_def parseUintLoop.simps)

declare parseUintLoop.simps(2) [simp del]

lemma parseUintLoop_ok:
  "n \<le> maxUint64 \<Longrightarrow>
   (parseUintLoop n cs = Inr v) =
     (list_all isDigit cs \<and> foldl decimalStep n cs \<le> maxUint64 \<and> v = foldl decimalStep n cs)"
proof (induction cs arbitrary: n)
  case Nil
  then show ?case by auto
next
  case (Cons c cs)
  show ?case
  proof (cases "isDigit c")
    case False
    then show ?thesis by (simp add: parseUintLoop_nondigit)
  next
    case True
    show ?thesis
    proof (cases "decimalStep n c \<le> maxUint64")
      case le: True
      show ?thesis using True le Cons.IH [OF le]
        by (simp add: parseUintLoop_step)
    next
      case gt: False
      have "decimalStep n c \<le> foldl decimalStep (decimalStep n c) cs"
        by (rule foldl_decimalStep_ge)
      then have "\<not> foldl decimalStep (decimalStep n c) cs \<le> maxUint64" using gt by simp
      then show ?thesis using True gt
        by (simp add: parseUintLoop_step)
    qed
  qed
qed

lemma parseUintLoop_err:
  "parseUintLoop n cs = Inl e \<Longrightarrow> e = ErrSyntax \<or> e = ErrRange"
proof (induction cs arbitrary: n)
  case Nil
  then show ?case by simp
next
  case (Cons c cs)
  then show ?case
    by (cases "isDigit c")
      (auto simp: parseUintLoop_step parseUintLoop_nondigit split: if_splits)
qed

lemma ParseUint_ok:
  "(ParseUint s = Inr w) =
     (isDecimal s \<and> decimalValue s \<le> maxUint64 \<and> w = word_of_nat (decimalValue s))"
proof (cases "s = []")
  case True
  then show ?thesis by (simp add: ParseUint_def isDecimal_def)
next
  case False
  have zero: "(0::nat) \<le> maxUint64" by simp
  show ?thesis
  proof (cases "parseUintLoop 0 s")
    case (Inl e)
    then have "\<not> (list_all isDigit s \<and> foldl decimalStep 0 s \<le> maxUint64)"
      using parseUintLoop_ok [OF zero, of s "foldl decimalStep 0 s"] by simp
    then show ?thesis using False Inl
      by (auto simp: ParseUint_def isDecimal_def decimalValue_def)
  next
    case (Inr v)
    then have "list_all isDigit s \<and> foldl decimalStep 0 s \<le> maxUint64
               \<and> v = foldl decimalStep 0 s"
      using parseUintLoop_ok [OF zero, of s v] by simp
    then show ?thesis using False Inr
      by (auto simp: ParseUint_def isDecimal_def decimalValue_def)
  qed
qed

lemma ParseUint_err: "ParseUint s = Inl e \<Longrightarrow> e = ErrSyntax \<or> e = ErrRange"
  by (auto simp: ParseUint_def split: if_splits sum.splits dest: parseUintLoop_err)

section \<open>Dispatch: the receiver cap\<close>

lemma eligible_testHost:
  "eligible (New (testHost cs ofs wfs) st [global]) = (\<lambda>pid. pid \<noteq> ''A'')"
  by (rule ext) (simp add: eligible_def New_def testHost_def global_def RequestProtocol_def)

lemma tenPeerSupply_eligible:
  "filter (eligible tenPeerSupply) (Conns (h tenPeerSupply)) = tenPeers"
proof -
  have "Conns (h tenPeerSupply) = tenPeers"
    by (simp add: tenPeerSupply_def New_def testHost_def)
  moreover have "filter (\<lambda>pid. pid \<noteq> ''A'') tenPeers = tenPeers"
    by (simp add: tenPeers_def)
  ultimately show ?thesis
    by (simp add: tenPeerSupply_def eligible_testHost)
qed

text \<open>
  Claim C1. Whatever the connections of the host, one call of \<open>Dispatch\<close> opens at most
  \<open>MaxReceiverCount = 7\<close> request streams and makes at most 7 authorization writes, all
  of them for the payload CID of the request; the authorization table afterwards is the
  table before with exactly those writes applied; the count of the response is at most
  7; and when more than 7 connected peers qualify, the receivers are the first 7 of the
  qualifying list, in order, and only they are added to the table.
\<close>

theorem Dispatch_receiver_cap:
  "MaxReceiverCount = 7
   \<and> length (List.map_filter streamPeer (snd (snd (Dispatch s r)))) \<le> MaxReceiverCount
   \<and> length (List.map_filter authorized (snd (snd (Dispatch s r)))) \<le> MaxReceiverCount
   \<and> fst ` set (List.map_filter authorized (snd (snd (Dispatch s r)))) \<subseteq> {PayloadCID r}
   \<and> validation (fst (snd (Dispatch s r))) =
        authorizeCalls (validation s) (List.map_filter authorized (snd (snd (Dispatch s r))))
   \<and> Count (fst (fst (Dispatch s r))) \<le> int MaxReceiverCount
   \<and> (MaxReceiverCount < length (filter (eligible s) (Conns (h s))) \<longrightarrow>
        selectProviders s = Inr (take 7 (filter (eligible s) (Conns (h s))))
        \<and> List.map_filter streamPeer (snd (snd (Dispatch s r)))
            = take 7 (filter (eligible s) (Conns (h s)))
        \<and> List.map_filter authorized (snd (snd (Dispatch s r)))
            = map (Pair (PayloadCID r)) (take 7 (filter (eligible s) (Conns (h s))))
        \<and> validation (fst (snd (Dispatch s r))) =
            authorizeCalls (validation s)
              (map (Pair (PayloadCID r)) (take 7 (filter (eligible s) (Conns (h s))))))"
proof -
  note link = Dispatch_validation [of s r]
  have rest: "MaxReceiverCount = 7
   \<and> length (List.map_filter streamPeer (snd (snd (Dispatch s r)))) \<le> MaxReceiverCount
   \<and> length (List.map_filter authorized (snd (snd (Dispatch s r)))) \<le> MaxReceiverCount
   \<and> fst ` set (List.map_filter authorized (snd (snd (Dispatch s r)))) \<subseteq> {PayloadCID r}
   \<and> Count (fst (fst (Dispatch s r))) \<le> int MaxReceiverCount
   \<and> (MaxReceiverCount < length (filter (eligible s) (Conns (h s))) \<longrightarrow>
        selectProviders s = Inr (take 7 (filter (eligible s) (Conns (h s))))
        \<and> List.map_filter streamPeer (snd (snd (Dispatch s r)))
            = take 7 (filter (eligible s) (Conns (h s)))
        \<and> List.map_filter authorized (snd (snd (Dispatch s r)))
            = map (Pair (PayloadCID r)) (take 7 (filter (eligible s) (Conns (h s)))))"
    apply (simp only: Dispatch_streamPeers Dispatch_authorized)
    apply (auto simp: selectProviders_eq MaxReceiverCount_def Dispatch_def Let_def
        split: sum.splits if_splits)
    done
  show ?thesis using link rest by metis
qed

theorem Dispatch_receiver_cap_witness:
  "MaxReceiverCount < length (filter (eligible tenPeerSupply) (Conns (h tenPeerSupply)))
   \<and> List.map_filter streamPeer
        (snd (snd (Dispatch tenPeerSupply \<lparr>PayloadCID = ''Q'', Size = 100\<rparr>)))
       = [''P0'', ''P1'', ''P2'', ''P3'', ''P4'', ''P5'', ''P6'']
   \<and> List.map_filter authorized
        (snd (snd (Dispatch tenPeerSupply \<lparr>PayloadCID = ''Q'', Size = 100\<rparr>)))
       = map (Pair ''Q'') [''P0'', ''P1'', ''P2'', ''P3'', ''P4'', ''P5'', ''P6'']
   \<and> validation (fst (snd (Dispatch tenPeerSupply \<lparr>PayloadCID = ''Q'', Size = 100\<rparr>))) ''Q''
       = Some {''P0'', ''P1'', ''P2'', ''P3'', ''P4'', ''P5'', ''P6''}
   \<and> ValidatePull
        (validation (fst (snd (Dispatch tenPeerSupply \<lparr>PayloadCID = ''Q'', Size = 100\<rparr>))))
        ''P7'' ''Q'' = Inl ErrNotAuthorized"
proof -
  have len: "MaxReceiverCount < length (filter (eligible tenPeerSupply) (Conns (h tenPeerSupply)))"
    by (simp add: tenPeerSupply_eligible tenPeers_def MaxReceiverCount_def)
  have tk: "take 7 tenPeers = [''P0'', ''P1'', ''P2'', ''P3'', ''P4'', ''P5'', ''P6'']"
    by (simp add: tenPeers_def)
  have v0: "validation tenPeerSupply = NewValidator"
    by (simp add: tenPeerSupply_def New_def)
  have tbl: "authorizeCalls NewValidator
               (map (Pair ''Q'') [''P0'', ''P1'', ''P2'', ''P3'', ''P4'', ''P5'', ''P6'']) ''Q''
             = Some {''P0'', ''P1'', ''P2'', ''P3'', ''P4'', ''P5'', ''P6''}"
    by (simp only: authorizeCalls_New) auto
  have facts: "List.map_filter streamPeer
        (snd (snd (Dispatch tenPeerSupply \<lparr>PayloadCID = ''Q'', Size = 100\<rparr>)))
       = [''P0'', ''P1'', ''P2'', ''P3'', ''P4'', ''P5'', ''P6'']
   \<and> List.map_filter authorized
        (snd (snd (Dispatch tenPeerSupply \<lparr>PayloadCID = ''Q'', Size = 100\<rparr>)))
       = map (Pair ''Q'') [''P0'', ''P1'', ''P2'', ''P3'', ''P4'', ''P5'', ''P6'']
   \<and> validation (fst (snd (Dispatch tenPeerSupply \<lparr>PayloadCID = ''Q'', Size = 100\<rparr>)))
       = authorizeCalls NewValidator
           (map (Pair ''Q'') [''P0'', ''P1'', ''P2'', ''P3'', ''P4'', ''P5'', ''P6''])"
    using len Dispatch_receiver_cap [of tenPeerSupply "\<lparr>PayloadCID = ''Q'', Size = 100\<rparr>"]
    by (simp add: tenPeerSupply_eligible tk v0 del: authorizeCalls.simps)
  then have entry: "validation (fst (snd (Dispatch tenPeerSupply \<lparr>PayloadCID = ''Q'', Size = 100\<rparr>))) ''Q''
       = Some {''P0'', ''P1'', ''P2'', ''P3'', ''P4'', ''P5'', ''P6''}"
    using tbl by simp
  have deny: "ValidatePull
        (validation (fst (snd (Dispatch tenPeerSupply \<lparr>PayloadCID = ''Q'', Size = 100\<rparr>))))
        ''P7'' ''Q'' = Inl ErrNotAuthorized"
    using entry by (simp add: ValidatePull_def)
  show ?thesis using len facts entry deny by simp
qed

section \<open>Dispatch without receivers\<close>

text \<open>
  Claim C3. When no connection qualifies (there is none, or every connected peer is the
  local peer or supports none of the node's region protocols), \<open>Dispatch\<close> returns the
  no-peers error with a response whose count is 0, writes no authorization and opens no
  stream: the only call made is the event subscription, and the supply is unchanged.
\<close>

theorem Dispatch_no_peers:
  "(\<forall>pid \<in> set (Conns (h s)). \<not> eligible s pid) \<longrightarrow>
     Dispatch s r = ((\<lparr>Count = 0\<rparr>, Some ErrNoPeers), s, [CallSubscribeToEvents (PayloadCID r)])
     \<and> Count (fst (fst (Dispatch s r))) = 0
     \<and> List.map_filter authorized (snd (snd (Dispatch s r))) = []
     \<and> List.map_filter streamPeer (snd (snd (Dispatch s r))) = []
     \<and> validation (fst (snd (Dispatch s r))) = validation s"
proof
  assume "\<forall>pid \<in> set (Conns (h s)). \<not> eligible s pid"
  then have "filter (eligible s) (Conns (h s)) = []" by (simp add: filter_empty_conv)
  then have "selectProviders s = Inl ErrNoPeers" by (simp add: selectProviders_eq)
  then show "Dispatch s r = ((\<lparr>Count = 0\<rparr>, Some ErrNoPeers), s, [CallSubscribeToEvents (PayloadCID r)])
     \<and> Count (fst (fst (Dispatch s r))) = 0
     \<and> List.map_filter authorized (snd (snd (Dispatch s r))) = []
     \<and> List.map_filter streamPeer (snd (snd (Dispatch s r))) = []
     \<and> validation (fst (snd (Dispatch s r))) = validation s"
    by (simp add: Dispatch_def)
qed

theorem Dispatch_no_peers_witness:
  "Conns (h noConnSupply) = []
   \<and> Conns (h asiaOnlySupply) = [''A'', ''B'']
   \<and> filter (eligible asiaOnlySupply) (Conns (h asiaOnlySupply)) = []
   \<and> Dispatch noConnSupply \<lparr>PayloadCID = ''Q'', Size = 1\<rparr>
       = ((\<lparr>Count = 0\<rparr>, Some ErrNoPeers), noConnSupply, [CallSubscribeToEvents ''Q''])
   \<and> Dispatch asiaOnlySupply \<lparr>PayloadCID = ''Q'', Size = 1\<rparr>
       = ((\<lparr>Count = 0\<rparr>, Some ErrNoPeers), asiaOnlySupply, [CallSubscribeToEvents ''Q''])"
proof -
  have a: "\<forall>pid \<in> set (Conns (h noConnSupply)). \<not> eligible noConnSupply pid"
    by (simp add: noConnSupply_def New_def testHost_def)
  have b: "\<forall>pid \<in> set (Conns (h asiaOnlySupply)). \<not> eligible asiaOnlySupply pid"
    by (simp add: asiaOnlySupply_def New_def testHost_def eligible_def asia_def
        RequestProtocol_def)
  have c: "Conns (h noConnSupply) = []"
    by (simp add: noConnSupply_def New_def testHost_def)
  have d: "Conns (h asiaOnlySupply) = [''A'', ''B'']"
    by (simp add: asiaOnlySupply_def New_def testHost_def)
  have e: "filter (eligible asiaOnlySupply) (Conns (h asiaOnlySupply)) = []"
    using b by (simp add: filter_empty_conv)
  have f: "Dispatch noConnSupply \<lparr>PayloadCID = ''Q'', Size = 1\<rparr>
       = ((\<lparr>Count = 0\<rparr>, Some ErrNoPeers), noConnSupply, [CallSubscribeToEvents ''Q''])"
    using a Dispatch_no_peers [of noConnSupply "\<lparr>PayloadCID = ''Q'', Size = 1\<rparr>"]
    by simp
  have g: "Dispatch asiaOnlySupply \<lparr>PayloadCID = ''Q'', Size = 1\<rparr>
       = ((\<lparr>Count = 0\<rparr>, Some ErrNoPeers), asiaOnlySupply, [CallSubscribeToEvents ''Q''])"
    using b Dispatch_no_peers [of asiaOnlySupply "\<lparr>PayloadCID = ''Q'', Size = 1\<rparr>"]
    by simp
  show ?thesis using c d e f g by simp
qed

section \<open>Best-effort fan-out\<close>

lemma sendAll_writeAttempts:
  "List.map_filter writeAttempt (sendAllRequests nw r n ps) =
     map snd (filter (\<lambda>(i, p). NewStream (host nw) i p (protocols nw) = None)
                (zip [n..<n + length ps] ps))"
proof (induction ps arbitrary: n)
  case Nil
  show ?case by simp
next
  case (Cons p ps)
  have "[n..<n + length (p # ps)] = n # [Suc n..<Suc n + length ps]"
    by (simp add: upt_conv_Cons del: upt_Suc)
  then show ?case using Cons.IH [of "Suc n"]
    by (auto split: option.splits)
qed

lemma sendAll_written:
  "List.map_filter written (sendAllRequests nw r n ps) =
     map snd (filter (\<lambda>(i, p). NewStream (host nw) i p (protocols nw) = None
                              \<and> WriteCborRPC (host nw) i p r = None)
                (zip [n..<n + length ps] ps))"
proof (induction ps arbitrary: n)
  case Nil
  show ?case by simp
next
  case (Cons p ps)
  have "[n..<n + length (p # ps)] = n # [Suc n..<Suc n + length ps]"
    by (simp add: upt_conv_Cons del: upt_Suc)
  then show ?case using Cons.IH [of "Suc n"]
    by (cases "WriteCborRPC (host nw) n p r") (auto split: option.splits)
qed

lemma authorize_calls_other:
  "List.map_filter writeAttempt (map (CallAuthorize k) ps) = []"
  "List.map_filter written (map (CallAuthorize k) ps) = []"
  by (induction ps) auto

lemma threePeerSupply_providers: "selectProviders threePeerSupply = Inr [''B'', ''C'', ''D'']"
proof -
  have "Conns (h threePeerSupply) = [''B'', ''C'', ''D'']"
    by (simp add: threePeerSupply_def New_def testHost_def)
  then show ?thesis
    by (simp add: selectProviders_eq threePeerSupply_def eligible_testHost MaxReceiverCount_def)
qed

text \<open>
  Claim C8. Once providers are selected, \<open>Dispatch\<close> returns no error and a count equal
  to the number of providers, whatever the streams do. A stream is opened to every
  provider in order; the request is written to exactly the providers whose own stream
  opened, whether or not an earlier open or write failed; and the providers that got the
  request are those whose own open and write both succeeded, so the count is the number
  targeted and not the number written.
\<close>

theorem Dispatch_best_effort:
  "selectProviders s = Inr providers \<longrightarrow>
     fst (Dispatch s r) = (\<lparr>Count = int (length providers)\<rparr>, None)
     \<and> List.map_filter streamPeer (snd (snd (Dispatch s r))) = providers
     \<and> List.map_filter writeAttempt (snd (snd (Dispatch s r))) =
         map snd (filter (\<lambda>(i, p). NewStream (host (net s)) i p (protocols (net s)) = None)
                    (zip [0..<length providers] providers))
     \<and> List.map_filter written (snd (snd (Dispatch s r))) =
         map snd (filter (\<lambda>(i, p). NewStream (host (net s)) i p (protocols (net s)) = None
                                  \<and> WriteCborRPC (host (net s)) i p r = None)
                    (zip [0..<length providers] providers))"
  using sendAll_writeAttempts [of "net s" r 0 providers]
    sendAll_written [of "net s" r 0 providers]
  by (simp add: Dispatch_def Let_def map_filter_append sendAll_streamPeers
      authorize_calls_streamPeers authorize_calls_other)

theorem Dispatch_best_effort_witness:
  "selectProviders threePeerSupply = Inr [''B'', ''C'', ''D'']
   \<and> Count (fst (fst (Dispatch threePeerSupply \<lparr>PayloadCID = ''Q'', Size = 100\<rparr>))) = 3
   \<and> List.map_filter streamPeer (snd (snd (Dispatch threePeerSupply \<lparr>PayloadCID = ''Q'', Size = 100\<rparr>)))
       = [''B'', ''C'', ''D'']
   \<and> List.map_filter writeAttempt (snd (snd (Dispatch threePeerSupply \<lparr>PayloadCID = ''Q'', Size = 100\<rparr>)))
       = [''C'', ''D'']
   \<and> List.map_filter written (snd (snd (Dispatch threePeerSupply \<lparr>PayloadCID = ''Q'', Size = 100\<rparr>)))
       = [''D'']"
proof -
  have nw: "NewStream (host (net threePeerSupply)) = (\<lambda>n pid protos. if n = 0 then Some (ErrExternal ''dial'') else None)"
    by (simp add: threePeerSupply_def New_def NewNetwork_def testHost_def)
  have wr: "WriteCborRPC (host (net threePeerSupply)) = (\<lambda>n pid r. if n = 1 then Some (ErrExternal ''write'') else None)"
    by (simp add: threePeerSupply_def New_def NewNetwork_def testHost_def)
  have up: "[0..<3] = [0, 1, 2]" by (simp add: upt_conv_Cons)
  show ?thesis
    using threePeerSupply_providers
      Dispatch_best_effort [of threePeerSupply "[''B'', ''C'', ''D'']" "\<lparr>PayloadCID = ''Q'', Size = 100\<rparr>"]
    by (simp add: nw wr up)
qed

section \<open>Selection by connection\<close>

lemma count_list_take_le: "count_list (take n xs) x \<le> count_list xs x"
proof (induction xs arbitrary: n)
  case Nil
  show ?case by simp
next
  case (Cons y ys)
  show ?case using Cons.IH by (cases n) (auto intro: le_SucI)
qed

lemma count_list_filter:
  "count_list (filter P xs) x = (if P x then count_list xs x else 0)"
  by (induction xs) auto

lemma count_list_Pair: "count_list (map (Pair k) ps) (k, p) = count_list ps p"
  by (induction ps) auto

lemma length_filter_split:
  "P p \<Longrightarrow> length (filter P xs) = count_list xs p + length (filter (\<lambda>q. P q \<and> q \<noteq> p) xs)"
  by (induction xs) auto

lemma twiceConnectedSupply_eligible:
  "filter (eligible twiceConnectedSupply) (Conns (h twiceConnectedSupply))
     = [''B'', ''C'', ''B'', ''B'']"
proof -
  have "Conns (h twiceConnectedSupply) = [''B'', ''C'', ''B'', ''B'']"
    by (simp add: twiceConnectedSupply_def New_def testHost_def)
  then show ?thesis
    by (simp add: twiceConnectedSupply_def eligible_testHost)
qed

text \<open>
  Claim C10. Selection walks the connections and keeps every qualifying one, so a peer
  is never selected more often than it has connections, and it is selected once per
  connection whenever at most \<open>MaxReceiverCount\<close> connections qualify: a qualifying peer
  with \<open>k\<close> connections then gets \<open>k\<close> request streams and \<open>k\<close> authorization writes
  and adds \<open>k\<close> to the count of the response. Nothing removes duplicates. The writes
  are those made on the authorization table: the table after \<open>Dispatch\<close> is the table
  before with one \<open>Authorize\<close> per qualifying connection applied in order, so a
  connected qualifying peer may pull the payload afterwards.
\<close>

theorem Dispatch_selects_connections:
  "count_list (List.map_filter streamPeer (snd (snd (Dispatch s r)))) p
     \<le> count_list (Conns (h s)) p
   \<and> count_list (List.map_filter authorized (snd (snd (Dispatch s r)))) (PayloadCID r, p)
     \<le> count_list (Conns (h s)) p
   \<and> validation (fst (snd (Dispatch s r))) =
        authorizeCalls (validation s) (List.map_filter authorized (snd (snd (Dispatch s r))))
   \<and> (eligible s p \<and> length (filter (eligible s) (Conns (h s))) \<le> MaxReceiverCount \<longrightarrow>
        List.map_filter streamPeer (snd (snd (Dispatch s r))) = filter (eligible s) (Conns (h s))
      \<and> List.map_filter authorized (snd (snd (Dispatch s r)))
          = map (Pair (PayloadCID r)) (filter (eligible s) (Conns (h s)))
      \<and> validation (fst (snd (Dispatch s r))) =
          authorizeCalls (validation s)
            (map (Pair (PayloadCID r)) (filter (eligible s) (Conns (h s))))
      \<and> count_list (List.map_filter streamPeer (snd (snd (Dispatch s r)))) p
          = count_list (Conns (h s)) p
      \<and> count_list (List.map_filter authorized (snd (snd (Dispatch s r)))) (PayloadCID r, p)
          = count_list (Conns (h s)) p
      \<and> (p \<in> set (Conns (h s)) \<longrightarrow>
           ValidatePull (validation (fst (snd (Dispatch s r)))) p (PayloadCID r) = Inr ())
      \<and> Count (fst (fst (Dispatch s r)))
          = int (count_list (Conns (h s)) p)
            + int (length (filter (\<lambda>q. eligible s q \<and> q \<noteq> p) (Conns (h s)))))"
proof -
  let ?el = "filter (eligible s) (Conns (h s))"
  note link = Dispatch_validation [of s r]
  have sel: "(case selectProviders s of Inl err \<Rightarrow> [] | Inr ps \<Rightarrow> ps) = take MaxReceiverCount ?el"
    by (simp add: selectProviders_eq)
  have selk: "(case selectProviders s of Inl err \<Rightarrow> [] | Inr ps \<Rightarrow> map (Pair (PayloadCID r)) ps)
              = map (Pair (PayloadCID r)) (take MaxReceiverCount ?el)"
    by (simp add: selectProviders_eq)
  have cnt: "Count (fst (fst (Dispatch s r))) = int (length (take MaxReceiverCount ?el))"
    by (simp add: Dispatch_def Let_def selectProviders_eq)
  have le: "count_list (take MaxReceiverCount ?el) p \<le> count_list (Conns (h s)) p"
    using count_list_take_le [of MaxReceiverCount ?el p]
    by (simp add: count_list_filter split: if_splits)
  have A: "count_list (List.map_filter streamPeer (snd (snd (Dispatch s r)))) p
     \<le> count_list (Conns (h s)) p"
    by (simp only: Dispatch_streamPeers sel le)
  have B: "count_list (List.map_filter authorized (snd (snd (Dispatch s r)))) (PayloadCID r, p)
     \<le> count_list (Conns (h s)) p"
    by (simp only: Dispatch_authorized selk count_list_Pair le)
  have C: "List.map_filter streamPeer (snd (snd (Dispatch s r))) = ?el
      \<and> List.map_filter authorized (snd (snd (Dispatch s r)))
          = map (Pair (PayloadCID r)) ?el
      \<and> validation (fst (snd (Dispatch s r))) =
          authorizeCalls (validation s) (map (Pair (PayloadCID r)) ?el)
      \<and> count_list (List.map_filter streamPeer (snd (snd (Dispatch s r)))) p
          = count_list (Conns (h s)) p
      \<and> count_list (List.map_filter authorized (snd (snd (Dispatch s r)))) (PayloadCID r, p)
          = count_list (Conns (h s)) p
      \<and> (p \<in> set (Conns (h s)) \<longrightarrow>
           ValidatePull (validation (fst (snd (Dispatch s r)))) p (PayloadCID r) = Inr ())
      \<and> Count (fst (fst (Dispatch s r)))
          = int (count_list (Conns (h s)) p)
            + int (length (filter (\<lambda>q. eligible s q \<and> q \<noteq> p) (Conns (h s))))"
    if el: "eligible s p" and small: "length ?el \<le> MaxReceiverCount"
  proof -
    have tk: "take MaxReceiverCount ?el = ?el" using small by simp
    have c: "count_list ?el p = count_list (Conns (h s)) p"
      using el by (simp add: count_list_filter)
    have len: "length ?el = count_list (Conns (h s)) p
                 + length (filter (\<lambda>q. eligible s q \<and> q \<noteq> p) (Conns (h s)))"
      using el by (rule length_filter_split)
    have 1: "List.map_filter streamPeer (snd (snd (Dispatch s r))) = ?el"
      by (simp only: Dispatch_streamPeers sel tk)
    have 2: "List.map_filter authorized (snd (snd (Dispatch s r))) = map (Pair (PayloadCID r)) ?el"
      by (simp only: Dispatch_authorized selk tk)
    have 3: "Count (fst (fst (Dispatch s r))) = int (length ?el)"
      by (simp only: cnt tk)
    have 4: "validation (fst (snd (Dispatch s r))) =
          authorizeCalls (validation s) (map (Pair (PayloadCID r)) ?el)"
      using link by (simp only: 2)
    have 5: "ValidatePull (validation (fst (snd (Dispatch s r)))) p (PayloadCID r) = Inr ()"
      if "p \<in> set (Conns (h s))"
    proof -
      have "(PayloadCID r, p) \<in> set (map (Pair (PayloadCID r)) ?el)"
        using that el by simp
      then show ?thesis unfolding 4 by (rule authorizeCalls_allows)
    qed
    have 6: "count_list (List.map_filter streamPeer (snd (snd (Dispatch s r)))) p
          = count_list (Conns (h s)) p"
      by (simp add: 1 c)
    have 7: "count_list (List.map_filter authorized (snd (snd (Dispatch s r)))) (PayloadCID r, p)
          = count_list (Conns (h s)) p"
      by (simp add: 2 c count_list_Pair)
    have 8: "Count (fst (fst (Dispatch s r)))
          = int (count_list (Conns (h s)) p)
            + int (length (filter (\<lambda>q. eligible s q \<and> q \<noteq> p) (Conns (h s))))"
      by (simp add: 3 len)
    show ?thesis using 1 2 4 5 6 7 8 by blast
  qed
  show ?thesis using A B C link by blast
qed

theorem Dispatch_selects_connections_witness:
  "eligible twiceConnectedSupply ''B''
   \<and> count_list (Conns (h twiceConnectedSupply)) ''B'' = 3
   \<and> List.map_filter streamPeer
        (snd (snd (Dispatch twiceConnectedSupply \<lparr>PayloadCID = ''Q'', Size = 100\<rparr>)))
       = [''B'', ''C'', ''B'', ''B'']
   \<and> List.map_filter authorized
        (snd (snd (Dispatch twiceConnectedSupply \<lparr>PayloadCID = ''Q'', Size = 100\<rparr>)))
       = [(''Q'', ''B''), (''Q'', ''C''), (''Q'', ''B''), (''Q'', ''B'')]
   \<and> count_list (List.map_filter authorized
        (snd (snd (Dispatch twiceConnectedSupply \<lparr>PayloadCID = ''Q'', Size = 100\<rparr>))))
        (''Q'', ''B'') = 3
   \<and> validation (fst (snd (Dispatch twiceConnectedSupply \<lparr>PayloadCID = ''Q'', Size = 100\<rparr>)))
       = authorizeCalls NewValidator
           [(''Q'', ''B''), (''Q'', ''C''), (''Q'', ''B''), (''Q'', ''B'')]
   \<and> ValidatePull
        (validation (fst (snd (Dispatch twiceConnectedSupply \<lparr>PayloadCID = ''Q'', Size = 100\<rparr>))))
        ''B'' ''Q'' = Inr ()
   \<and> Count (fst (fst (Dispatch twiceConnectedSupply \<lparr>PayloadCID = ''Q'', Size = 100\<rparr>))) = 4"
proof -
  have el: "eligible twiceConnectedSupply ''B''"
    by (simp add: twiceConnectedSupply_def eligible_testHost)
  have conns: "Conns (h twiceConnectedSupply) = [''B'', ''C'', ''B'', ''B'']"
    by (simp add: twiceConnectedSupply_def New_def testHost_def)
  have small: "length (filter (eligible twiceConnectedSupply) (Conns (h twiceConnectedSupply)))
                 \<le> MaxReceiverCount"
    by (simp add: twiceConnectedSupply_eligible MaxReceiverCount_def)
  have k: "count_list (Conns (h twiceConnectedSupply)) ''B'' = 3"
    by (simp add: conns)
  have mem: "''B'' \<in> set (Conns (h twiceConnectedSupply))"
    by (simp add: conns)
  have el_eq: "eligible twiceConnectedSupply = (\<lambda>pid. pid \<noteq> ''A'')"
    by (simp add: twiceConnectedSupply_def eligible_testHost)
  have others: "length (filter (\<lambda>q. eligible twiceConnectedSupply q \<and> q \<noteq> ''B'')
                   (Conns (h twiceConnectedSupply))) = 1"
    by (simp add: conns el_eq)
  have v0: "validation twiceConnectedSupply = NewValidator"
    by (simp add: twiceConnectedSupply_def New_def)
  show ?thesis
    using el small mem
      Dispatch_selects_connections [of twiceConnectedSupply "\<lparr>PayloadCID = ''Q'', Size = 100\<rparr>" "''B''"]
    by (simp add: k others twiceConnectedSupply_eligible v0 MaxReceiverCount_def
        authorizeCalls_allows del: authorizeCalls.simps)
qed

section \<open>Decimal text round trip\<close>

lemma digits_nth: "d < 10 \<Longrightarrow> (of_char (digits ! d) :: nat) = 48 + d"
proof -
  assume "d < 10"
  then have "d = 0 \<or> d = 1 \<or> d = 2 \<or> d = 3 \<or> d = 4 \<or> d = 5 \<or> d = 6 \<or> d = 7 \<or> d = 8 \<or> d = 9"
    by arith
  then show ?thesis by (auto simp: digits_def)
qed

lemma isDigit_digits: "d < 10 \<Longrightarrow> isDigit (digits ! d)"
  by (simp add: isDigit_def digits_nth)

lemma decimalStep_digits: "d < 10 \<Longrightarrow> decimalStep a (digits ! d) = 10 * a + d"
  by (simp add: decimalStep_def digits_nth)

lemma fmt_d_nonempty: "fmt_d n \<noteq> []"
  by (subst fmt_d.simps) simp

lemma fmt_d_digits: "list_all isDigit (fmt_d n)"
proof (induction n rule: fmt_d.induct)
  case (1 n)
  show ?case
  proof (cases "n < 10")
    case True
    then show ?thesis by (subst fmt_d.simps) (simp add: isDigit_digits)
  next
    case False
    then show ?thesis using "1.IH"
      by (subst fmt_d.simps) (simp add: isDigit_digits)
  qed
qed

lemma fmt_d_value: "decimalValue (fmt_d n) = n"
proof (induction n rule: fmt_d.induct)
  case (1 n)
  show ?case
  proof (cases "n < 10")
    case True
    then show ?thesis
      by (subst fmt_d.simps) (simp add: decimalValue_def decimalStep_digits)
  next
    case False
    then have "decimalValue (fmt_d (n div 10)) = n div 10" by (rule "1.IH")
    then show ?thesis using False
      by (subst fmt_d.simps) (simp add: decimalValue_def decimalStep_digits)
  qed
qed

lemma ParseUint_fmt_d: "ParseUint (fmt_d (unat w)) = Inr w"
proof -
  have "unat w < 2 ^ 64" using unsigned_less [of w, where ?'a = nat] by simp
  then have "unat w \<le> maxUint64" by (simp add: maxUint64_def)
  then show ?thesis
    by (simp add: ParseUint_ok isDecimal_def fmt_d_nonempty fmt_d_digits fmt_d_value)
qed

section \<open>The subscription of a dispatch\<close>

text \<open>
  Claim C6. For an event delivered to the subscription that \<open>Dispatch\<close> installs for
  request \<open>r\<close>: when the channel status is Completed and the base CID of the channel is
  the payload CID of \<open>r\<close>, exactly one record is sent, with the recipient of the
  channel as provider and that base CID as payload CID; any other event sends nothing.
\<close>

theorem DispatchSubscriber_records:
  "DispatchSubscriber r event chState =
     (if ChStatus chState = Completed \<and> BaseCID chState = PayloadCID r
      then [\<lparr>Provider = Recipient chState, RecPayloadCID = BaseCID chState\<rparr>]
      else [])"
  by (simp add: DispatchSubscriber_def Let_def)

theorem DispatchSubscriber_records_witness:
  "DispatchSubscriber \<lparr>PayloadCID = ''Q'', Size = 100\<rparr> \<lparr>EvCode = OtherEventCode 19\<rparr>
       \<lparr>ChStatus = Completed, BaseCID = ''Q'', Recipient = ''B''\<rparr>
     = [\<lparr>Provider = ''B'', RecPayloadCID = ''Q''\<rparr>]
   \<and> DispatchSubscriber \<lparr>PayloadCID = ''Q'', Size = 100\<rparr> \<lparr>EvCode = OtherEventCode 19\<rparr>
       \<lparr>ChStatus = Completed, BaseCID = ''Z'', Recipient = ''B''\<rparr> = []
   \<and> DispatchSubscriber \<lparr>PayloadCID = ''Q'', Size = 100\<rparr> \<lparr>EvCode = Error\<rparr>
       \<lparr>ChStatus = OtherStatus 2, BaseCID = ''Q'', Recipient = ''B''\<rparr> = []"
  using DispatchSubscriber_records [of "\<lparr>PayloadCID = ''Q'', Size = 100\<rparr>" "\<lparr>EvCode = OtherEventCode 19\<rparr>"
      "\<lparr>ChStatus = Completed, BaseCID = ''Q'', Recipient = ''B''\<rparr>"]
    DispatchSubscriber_records [of "\<lparr>PayloadCID = ''Q'', Size = 100\<rparr>" "\<lparr>EvCode = OtherEventCode 19\<rparr>"
      "\<lparr>ChStatus = Completed, BaseCID = ''Z'', Recipient = ''B''\<rparr>"]
    DispatchSubscriber_records [of "\<lparr>PayloadCID = ''Q'', Size = 100\<rparr>" "\<lparr>EvCode = Error\<rparr>"
      "\<lparr>ChStatus = OtherStatus 2, BaseCID = ''Q'', Recipient = ''B''\<rparr>"]
  by simp

section \<open>The cleanup subscription\<close>

text \<open>
  Claim C7. For an event delivered to the subscription that \<open>New\<close> installs: when the
  event code is Error and the recipient of the channel is the local peer, the content
  index loses its entry for the base CID of the channel and nothing else; any other
  event leaves the content index as it was.
\<close>

theorem NewSubscriber_cleanup:
  "NewSubscriber hst event channelState st =
     (if EvCode event = Error \<and> Recipient channelState = ID hst
      then st(BaseCID channelState := None)
      else st)"
  by (simp add: NewSubscriber_def RemoveRecord_def)

theorem NewSubscriber_cleanup_witness:
  "NewSubscriber (testHost [] [] []) \<lparr>EvCode = Error\<rparr>
       \<lparr>ChStatus = OtherStatus 2, BaseCID = ''Q'', Recipient = ''A''\<rparr>
       [''Q'' \<mapsto> \<lparr>Labels = [KStoreID \<mapsto> ''1'']\<rparr>] ''Q'' = None
   \<and> NewSubscriber (testHost [] [] []) \<lparr>EvCode = Error\<rparr>
       \<lparr>ChStatus = OtherStatus 2, BaseCID = ''Q'', Recipient = ''B''\<rparr>
       [''Q'' \<mapsto> \<lparr>Labels = [KStoreID \<mapsto> ''1'']\<rparr>]
      = [''Q'' \<mapsto> \<lparr>Labels = [KStoreID \<mapsto> ''1'']\<rparr>]
   \<and> NewSubscriber (testHost [] [] []) \<lparr>EvCode = OtherEventCode 5\<rparr>
       \<lparr>ChStatus = OtherStatus 2, BaseCID = ''Q'', Recipient = ''A''\<rparr>
       [''Q'' \<mapsto> \<lparr>Labels = [KStoreID \<mapsto> ''1'']\<rparr>]
      = [''Q'' \<mapsto> \<lparr>Labels = [KStoreID \<mapsto> ''1'']\<rparr>]"
  using NewSubscriber_cleanup [of "testHost [] [] []" "\<lparr>EvCode = Error\<rparr>"
      "\<lparr>ChStatus = OtherStatus 2, BaseCID = ''Q'', Recipient = ''A''\<rparr>"
      "[''Q'' \<mapsto> \<lparr>Labels = [KStoreID \<mapsto> ''1'']\<rparr>]"]
    NewSubscriber_cleanup [of "testHost [] [] []" "\<lparr>EvCode = Error\<rparr>"
      "\<lparr>ChStatus = OtherStatus 2, BaseCID = ''Q'', Recipient = ''B''\<rparr>"
      "[''Q'' \<mapsto> \<lparr>Labels = [KStoreID \<mapsto> ''1'']\<rparr>]"]
    NewSubscriber_cleanup [of "testHost [] [] []" "\<lparr>EvCode = OtherEventCode 5\<rparr>"
      "\<lparr>ChStatus = OtherStatus 2, BaseCID = ''Q'', Recipient = ''A''\<rparr>"
      "[''Q'' \<mapsto> \<lparr>Labels = [KStoreID \<mapsto> ''1'']\<rparr>]"]
  by (simp add: testHost_def)

section \<open>Store identifier lookup\<close>

lemma store_supplyWith: "store (supplyWith st) = st"
  by (simp add: supplyWith_def New_def)

text \<open>
  Claim C9. \<open>GetStoreID\<close> returns a store identifier exactly when the content index has
  a record for the CID, the record has the store-identifier label, and the label is an
  unsigned decimal numeral whose value fits 64 bits; the identifier is that value. It
  fails with three different errors otherwise: record not found, label not found, and a
  parse error (syntax or range) of the label.
\<close>

theorem GetStoreID_cases:
  "maxUint64 = 2 ^ 64 - 1
   \<and> (GetStoreID s k = Inr sid \<longleftrightarrow>
        (\<exists>rec lbl. store s k = Some rec \<and> Labels rec KStoreID = Some lbl
           \<and> isDecimal lbl \<and> decimalValue lbl \<le> maxUint64
           \<and> sid = word_of_nat (decimalValue lbl)))
   \<and> (GetStoreID s k = Inr sid \<longrightarrow>
        (\<exists>rec lbl. store s k = Some rec \<and> Labels rec KStoreID = Some lbl
           \<and> unat sid = decimalValue lbl))
   \<and> (store s k = None \<longrightarrow> GetStoreID s k = Inl ErrRecordNotFound)
   \<and> (\<forall>rec. store s k = Some rec \<and> Labels rec KStoreID = None \<longrightarrow>
        GetStoreID s k = Inl ErrStoreIDNotFound)
   \<and> (\<forall>rec lbl. store s k = Some rec \<and> Labels rec KStoreID = Some lbl
         \<and> \<not> (isDecimal lbl \<and> decimalValue lbl \<le> maxUint64) \<longrightarrow>
        GetStoreID s k = Inl ErrSyntax \<or> GetStoreID s k = Inl ErrRange)"
proof -
  have ok: "GetStoreID s k = Inr sid \<longleftrightarrow>
        (\<exists>rec lbl. store s k = Some rec \<and> Labels rec KStoreID = Some lbl
           \<and> isDecimal lbl \<and> decimalValue lbl \<le> maxUint64
           \<and> sid = word_of_nat (decimalValue lbl))"
  proof (cases "store s k")
    case None
    then show ?thesis by (simp add: GetStoreID_def GetRecord_def)
  next
    case (Some rec)
    show ?thesis
    proof (cases "Labels rec KStoreID")
      case None
      then show ?thesis using Some by (simp add: GetStoreID_def GetRecord_def)
    next
      case lbl: (Some lbl)
      have "(GetStoreID s k = Inr sid) = (ParseUint lbl = Inr sid)"
        using Some lbl by (cases "ParseUint lbl") (simp_all add: GetStoreID_def GetRecord_def)
      then show ?thesis using Some lbl by (simp add: ParseUint_ok)
    qed
  qed
  have un: "unat sid = decimalValue lbl"
    if "decimalValue lbl \<le> maxUint64" "sid = word_of_nat (decimalValue lbl)" for lbl
  proof -
    have "decimalValue lbl < 2 ^ 64" using that(1) by (simp add: maxUint64_def)
    then show ?thesis using that(2) by (simp add: unat_of_nat)
  qed
  have val: "GetStoreID s k = Inr sid \<longrightarrow>
        (\<exists>rec lbl. store s k = Some rec \<and> Labels rec KStoreID = Some lbl
           \<and> unat sid = decimalValue lbl)"
    using ok un by blast
  have nf: "store s k = None \<longrightarrow> GetStoreID s k = Inl ErrRecordNotFound"
    by (simp add: GetStoreID_def GetRecord_def)
  have nl: "\<forall>rec. store s k = Some rec \<and> Labels rec KStoreID = None \<longrightarrow>
        GetStoreID s k = Inl ErrStoreIDNotFound"
    by (simp add: GetStoreID_def GetRecord_def)
  have np: "\<forall>rec lbl. store s k = Some rec \<and> Labels rec KStoreID = Some lbl
         \<and> \<not> (isDecimal lbl \<and> decimalValue lbl \<le> maxUint64) \<longrightarrow>
        GetStoreID s k = Inl ErrSyntax \<or> GetStoreID s k = Inl ErrRange"
  proof (intro allI impI)
    fix rec lbl
    assume a: "store s k = Some rec \<and> Labels rec KStoreID = Some lbl
         \<and> \<not> (isDecimal lbl \<and> decimalValue lbl \<le> maxUint64)"
    show "GetStoreID s k = Inl ErrSyntax \<or> GetStoreID s k = Inl ErrRange"
    proof (cases "ParseUint lbl")
      case (Inl e)
      then have "e = ErrSyntax \<or> e = ErrRange" by (rule ParseUint_err)
      then show ?thesis using a Inl by (auto simp: GetStoreID_def GetRecord_def)
    next
      case (Inr w)
      then have "isDecimal lbl \<and> decimalValue lbl \<le> maxUint64" by (simp add: ParseUint_ok)
      then show ?thesis using a by simp
    qed
  qed
  have mx: "maxUint64 = 2 ^ 64 - 1" by (simp add: maxUint64_def)
  show ?thesis using mx ok val nf nl np by blast
qed

theorem GetStoreID_cases_witness:
  "GetStoreID (supplyWith [''Q'' \<mapsto> \<lparr>Labels = [KStoreID \<mapsto> ''42'', KSize \<mapsto> ''100'']\<rparr>]) ''Q'' = Inr 42
   \<and> GetStoreID (supplyWith [''Q'' \<mapsto> \<lparr>Labels = [KStoreID \<mapsto> ''42'']\<rparr>]) ''Z''
       = Inl ErrRecordNotFound
   \<and> GetStoreID (supplyWith [''Q'' \<mapsto> \<lparr>Labels = [KSize \<mapsto> ''100'']\<rparr>]) ''Q''
       = Inl ErrStoreIDNotFound
   \<and> GetStoreID (supplyWith [''Q'' \<mapsto> \<lparr>Labels = [KStoreID \<mapsto> ''4x2'']\<rparr>]) ''Q''
       = Inl ErrSyntax
   \<and> GetStoreID (supplyWith [''Q'' \<mapsto> \<lparr>Labels = [KStoreID \<mapsto> ''18446744073709551616'']\<rparr>]) ''Q''
       = Inl ErrRange"
proof -
  let ?s1 = "supplyWith [''Q'' \<mapsto> \<lparr>Labels = [KStoreID \<mapsto> ''42'', KSize \<mapsto> ''100'']\<rparr>]"
  have d: "isDecimal ''42''" by (simp add: isDecimal_def isDigit_def)
  have v: "decimalValue ''42'' = 42" by (simp add: decimalValue_def decimalStep_def)
  have 1: "GetStoreID ?s1 ''Q'' = Inr 42"
    using GetStoreID_cases [of ?s1 "''Q''" 42] d v
    by (simp add: store_supplyWith KStoreID_def KSize_def maxUint64_def)
  let ?s2 = "supplyWith [''Q'' \<mapsto> \<lparr>Labels = [KStoreID \<mapsto> ''42'']\<rparr>]"
  have 2: "GetStoreID ?s2 ''Z'' = Inl ErrRecordNotFound"
    using GetStoreID_cases [of ?s2 "''Z''" 0]
    by (simp add: store_supplyWith)
  let ?s3 = "supplyWith [''Q'' \<mapsto> \<lparr>Labels = [KSize \<mapsto> ''100'']\<rparr>]"
  have 3: "GetStoreID ?s3 ''Q'' = Inl ErrStoreIDNotFound"
    using GetStoreID_cases [of ?s3 "''Q''" 0]
    by (simp add: store_supplyWith KStoreID_def KSize_def)
  have 4: "GetStoreID (supplyWith [''Q'' \<mapsto> \<lparr>Labels = [KStoreID \<mapsto> ''4x2'']\<rparr>]) ''Q''
       = Inl ErrSyntax"
    by (simp add: GetStoreID_def GetRecord_def store_supplyWith ParseUint_def
        parseUintLoop.simps maxUint64_def)
  have 5: "GetStoreID (supplyWith [''Q'' \<mapsto> \<lparr>Labels = [KStoreID \<mapsto> ''18446744073709551616'']\<rparr>]) ''Q''
       = Inl ErrRange"
    by (simp add: GetStoreID_def GetRecord_def store_supplyWith ParseUint_def
        parseUintLoop.simps maxUint64_def)
  show ?thesis using 1 2 3 4 5 by simp
qed

section \<open>Inbound request handling\<close>

text \<open>
  Claim C4 in the words of the specification has a failing index write abort all the
  remaining steps, the closing of the stream among them. The close is deferred, so it
  runs on every path: with a failing index write the handler makes four calls and the
  last one closes the stream.
\<close>

theorem HandleRequest_put_failure_counterexample:
  "ReadRequest requestStream = Inr \<lparr>PayloadCID = ''Q'', Size = 100\<rparr>
   \<and> putFails failingPutHandler = Some (ErrExternal ''datastore'')
   \<and> HClose \<in> set (snd (HandleRequest failingPutHandler requestStream Map.empty))
   \<and> last (snd (HandleRequest failingPutHandler requestStream Map.empty)) = HClose
   \<and> length (snd (HandleRequest failingPutHandler requestStream Map.empty)) = 4"
  by (simp add: HandleRequest_def requestStream_def failingPutHandler_def PutRecord_def)

text \<open>
  Claim C4, amended. For a request read from the stream the handler, in this order, takes
  the next store identifier, writes a content record for the payload CID whose labels
  are the decimal texts of that identifier and of the advertised size (each parses back
  to the number), opens a pull from the sender with the payload CID as root and the
  recursive all-links selector, and closes the stream. When the index write fails the
  pull is not opened and nothing is reported, but the stream is still closed and the
  index is as before. Whether or not opening the pull fails, the index keeps the entry.
\<close>

theorem HandleRequest_steps:
  "ReadRequest stream = Inr req \<longrightarrow>
     AllSelector = ExploreRecursive RecursionLimitNone (ExploreAll ExploreRecursiveEdge)
     \<and> ParseUint (fmt_d (unat (msNext hdl))) = Inr (msNext hdl)
     \<and> ParseUint (fmt_d (unat (Size req))) = Inr (Size req)
     \<and> (putFails hdl = None \<longrightarrow>
          snd (HandleRequest hdl stream st) =
            [HReadRequest, HNext,
             HPutRecord (PayloadCID req)
               \<lparr>Labels = [KStoreID \<mapsto> fmt_d (unat (msNext hdl)),
                          KSize \<mapsto> fmt_d (unat (Size req))]\<rparr>,
             HOpenPullDataChannel (OtherPeer stream) req (PayloadCID req) AllSelector
               (pullFails hdl),
             HClose]
          \<and> fst (HandleRequest hdl stream st) =
              st(PayloadCID req \<mapsto>
                 \<lparr>Labels = [KStoreID \<mapsto> fmt_d (unat (msNext hdl)),
                            KSize \<mapsto> fmt_d (unat (Size req))]\<rparr>))
     \<and> (putFails hdl \<noteq> None \<longrightarrow>
          snd (HandleRequest hdl stream st) =
            [HReadRequest, HNext,
             HPutRecord (PayloadCID req)
               \<lparr>Labels = [KStoreID \<mapsto> fmt_d (unat (msNext hdl)),
                          KSize \<mapsto> fmt_d (unat (Size req))]\<rparr>,
             HClose]
          \<and> fst (HandleRequest hdl stream st) = st)"
  by (auto simp: HandleRequest_def PutRecord_def Let_def AllSelector_def ParseUint_fmt_d)

theorem HandleRequest_steps_witness:
  "ReadRequest requestStream = Inr \<lparr>PayloadCID = ''Q'', Size = 100\<rparr>
   \<and> putFails failingPullHandler = None
   \<and> pullFails failingPullHandler = Some (ErrExternal ''transport'')
   \<and> snd (HandleRequest failingPullHandler requestStream Map.empty) =
       [HReadRequest, HNext,
        HPutRecord ''Q'' \<lparr>Labels = [KStoreID \<mapsto> ''5'', KSize \<mapsto> ''100'']\<rparr>,
        HOpenPullDataChannel ''R'' \<lparr>PayloadCID = ''Q'', Size = 100\<rparr> ''Q'' AllSelector
          (Some (ErrExternal ''transport'')),
        HClose]
   \<and> fst (HandleRequest failingPullHandler requestStream Map.empty) ''Q''
       = Some \<lparr>Labels = [KStoreID \<mapsto> ''5'', KSize \<mapsto> ''100'']\<rparr>
   \<and> snd (HandleRequest failingPutHandler requestStream Map.empty) =
       [HReadRequest, HNext,
        HPutRecord ''Q'' \<lparr>Labels = [KStoreID \<mapsto> ''5'', KSize \<mapsto> ''100'']\<rparr>,
        HClose]
   \<and> fst (HandleRequest failingPutHandler requestStream Map.empty) ''Q'' = None"
proof -
  have r: "ReadRequest requestStream = Inr \<lparr>PayloadCID = ''Q'', Size = 100\<rparr>"
    by (simp add: requestStream_def)
  have o: "OtherPeer requestStream = ''R''" by (simp add: requestStream_def)
  have p: "putFails failingPullHandler = None"
    "pullFails failingPullHandler = Some (ErrExternal ''transport'')"
    "msNext failingPullHandler = 5"
    by (simp_all add: failingPullHandler_def)
  have q: "putFails failingPutHandler \<noteq> None" "msNext failingPutHandler = 5"
    by (simp_all add: failingPutHandler_def)
  have f5: "fmt_d 5 = ''5''" by (simp add: fmt_d.simps digits_def)
  have f100: "fmt_d 100 = ''100''" by (simp add: fmt_d.simps digits_def)
  show ?thesis
    using r p q
      HandleRequest_steps [of requestStream "\<lparr>PayloadCID = ''Q'', Size = 100\<rparr>"
        failingPullHandler Map.empty]
      HandleRequest_steps [of requestStream "\<lparr>PayloadCID = ''Q'', Size = 100\<rparr>"
        failingPutHandler Map.empty]
    by (simp add: o f5 f100)
qed

section \<open>The miner list of the Global region\<close>

text \<open>
  Claim C5 says that the miner list of Global is the concatenation of the lists of all
  the other presets. The list the code builds is that of NorthAmerica, Europe and
  Oceania only: the miners of Asia, such as \<open>f0159961\<close>, are in no position of it, so
  \<open>ListMiners\<close> for the region Global leaves them out although it returns them for the
  region Asia.
\<close>

theorem global_omits_asia:
  "StorageMiners global
     = StorageMiners northAmerica @ StorageMiners europe @ StorageMiners oceania
   \<and> ''f0159961'' \<in> set (StorageMiners asia)
   \<and> ''f0159961'' \<notin> set (StorageMiners global)
   \<and> set (StorageMiners global) \<noteq> set (concat (map StorageMiners otherPresets))
   \<and> minerStrings [global] [] = StorageMiners global
   \<and> ''f0159961'' \<in> set (minerStrings [asia] [])"
proof -
  have a: "StorageMiners global
     = StorageMiners northAmerica @ StorageMiners europe @ StorageMiners oceania"
    by (simp add: global_def)
  have b: "''f0159961'' \<in> set (StorageMiners asia)" by (simp add: asia_def)
  have c: "''f0159961'' \<notin> set (StorageMiners global)"
    by (simp add: global_def northAmerica_def europe_def oceania_def)
  have "''f0159961'' \<in> set (concat (map StorageMiners otherPresets))"
    using b by (simp add: otherPresets_def)
  then have d: "set (StorageMiners global) \<noteq> set (concat (map StorageMiners otherPresets))"
    using c by blast
  have e: "minerStrings [global] [] = StorageMiners global"
    by (simp add: global_def)
  have f: "''f0159961'' \<in> set (minerStrings [asia] [])"
    by (simp add: asia_def)
  show ?thesis using a b c d e f by blast
qed

end
